theory Spec2Isabelle
  imports Main "HOL-Library.Word"
begin

section \<open>Connection handles\<close>

text \<open>
  A \<open>net.Conn\<close> is an interface value. A non-nil connection is identified by a
  natural number; where the source can observe a nil interface value (the comma-ok type
  assertion of \<open>CloseOldest\<close>), the value is a \<open>conn option\<close> and \<open>None\<close>
  is nil.
\<close>

type_synonym conn = nat

datatype panic = NilPointerDereference

section \<open>LRUConns (psiphon/net.go)\<close>

text \<open>
  \<open>container/list\<close>: a doubly linked list of elements. An element has pointer
  identity, modelled by a number that \<open>PushFront\<close> never reuses; the list is kept
  front first. \<open>Back\<close> returns the last element, or nil for an empty list.
\<close>

record element =
  elem_id :: nat
  Value :: "conn option"

record LRUConns =
  lru_list :: "element list"
  lru_fresh :: nat

definition NewLRUConns :: LRUConns where
  "NewLRUConns = \<lparr>lru_list = [], lru_fresh = 0\<rparr>"

definition Back :: "element list \<Rightarrow> element option" where
  "Back l = (case l of [] \<Rightarrow> None | _ # _ \<Rightarrow> Some (last l))"

definition list_Remove :: "element list \<Rightarrow> element \<Rightarrow> element list" where
  "list_Remove l e = filter (\<lambda>x. elem_id x \<noteq> elem_id e) l"

definition list_MoveToFront :: "element list \<Rightarrow> element \<Rightarrow> element list" where
  "list_MoveToFront l e =
     (case filter (\<lambda>x. elem_id x = elem_id e) l of
        [] \<Rightarrow> l
      | x # _ \<Rightarrow> x # filter (\<lambda>y. elem_id y \<noteq> elem_id e) l)"

text \<open>\<open>LRUConns.Add\<close>: \<open>PushFront(conn)\<close>, and the entry that refers to the new element.\<close>

record LRUConnsEntry =
  entry_lruConns :: bool
  entry_element :: "element option"

definition LRUConns_Add :: "LRUConns \<Rightarrow> conn option \<Rightarrow> LRUConnsEntry \<times> LRUConns" where
  "LRUConns_Add conns c =
     (let e = \<lparr>elem_id = lru_fresh conns, Value = c\<rparr>
      in (\<lparr>entry_lruConns = True, entry_element = Some e\<rparr>,
          \<lparr>lru_list = e # lru_list conns, lru_fresh = Suc (lru_fresh conns)\<rparr>))"

text \<open>
  \<open>oldest.Value\<close> reads a field through the pointer \<open>oldest\<close>: on a nil pointer the
  Go runtime panics. The comma-ok assertion \<open>.(net.Conn)\<close> gives \<open>ok = false\<close> for a
  nil interface value.
\<close>

definition deref_Value :: "element option \<Rightarrow> panic + conn option" where
  "deref_Value p = (case p of None \<Rightarrow> Inl NilPointerDereference | Some e \<Rightarrow> Inr (Value e))"

text \<open>
  \<open>CloseOldest\<close>, statement by statement: \<open>Back\<close>, the type assertion on
  \<open>oldest.Value\<close>, the removal guarded by \<open>oldest != nil\<close>, and \<open>Close\<close> when
  \<open>ok\<close>. The result is the updated set and the handles on which close was invoked.
\<close>

definition CloseOldest :: "LRUConns \<Rightarrow> panic + (LRUConns \<times> conn list)" where
  "CloseOldest conns =
     (let oldest = Back (lru_list conns) in
      case deref_Value oldest of
        Inl p \<Rightarrow> Inl p
      | Inr v \<Rightarrow>
          (let l = (case oldest of None \<Rightarrow> lru_list conns
                                  | Some e \<Rightarrow> list_Remove (lru_list conns) e)
           in Inr (conns\<lparr>lru_list := l\<rparr>,
                   (case v of None \<Rightarrow> [] | Some c \<Rightarrow> [c]))))"

text \<open>\<open>LRUConnsEntry.Touch\<close> and \<open>LRUConnsEntry.Remove\<close>.\<close>

definition Touch :: "LRUConnsEntry \<Rightarrow> LRUConns \<Rightarrow> LRUConns" where
  "Touch entry conns =
     (if \<not> entry_lruConns entry then conns
      else case entry_element entry of
             None \<Rightarrow> conns
           | Some e \<Rightarrow> conns\<lparr>lru_list := list_MoveToFront (lru_list conns) e\<rparr>)"

definition Entry_Remove :: "LRUConnsEntry \<Rightarrow> LRUConns \<Rightarrow> LRUConns" where
  "Entry_Remove entry conns =
     (if \<not> entry_lruConns entry then conns
      else case entry_element entry of
             None \<Rightarrow> conns
           | Some e \<Rightarrow> conns\<lparr>lru_list := list_Remove (lru_list conns) e\<rparr>)"

section \<open>ThrottledConn (psiphon/net.go)\<close>

text \<open>
  The reader and writer chosen by \<open>NewThrottledConn\<close>: the wrapped connection itself
  when the rate is 0, a token-bucket limiter of that rate otherwise. The counters are
  \<open>int64\<close> and the flags \<open>int32\<close>; \<open>atomic.AddInt64\<close> wraps around.
\<close>

datatype io_handle = BaseConn | RateLimited "64 word"

record ThrottledConn =
  unlimitedReadBytes :: "64 word"
  limitingReads :: "32 word"
  limitedReader :: io_handle
  unlimitedWriteBytes :: "64 word"
  limitingWrites :: "32 word"
  limitedWriter :: io_handle

definition NewThrottledConn ::
  "64 word \<Rightarrow> 64 word \<Rightarrow> 64 word \<Rightarrow> 64 word \<Rightarrow> ThrottledConn" where
  "NewThrottledConn unlimitedRead limitReadBytesPerSecond
                    unlimitedWrite limitWriteBytesPerSecond =
     \<lparr>unlimitedReadBytes = unlimitedRead,
      limitingReads = 0,
      limitedReader = (if limitReadBytesPerSecond = 0 then BaseConn
                       else RateLimited limitReadBytesPerSecond),
      unlimitedWriteBytes = unlimitedWrite,
      limitingWrites = 0,
      limitedWriter = (if limitWriteBytesPerSecond = 0 then BaseConn
                       else RateLimited limitWriteBytesPerSecond)\<rparr>"

text \<open>
  \<open>Read\<close> on a buffer of \<open>n\<close> bytes. The result is the handle through which the
  buffer is read and the connection afterwards; \<open>None\<close> is a call that never returns.
  \<open>return conn.Read(buffer)\<close> calls this same method again.
\<close>

partial_function (option) ThrottledConn_Read ::
  "ThrottledConn \<Rightarrow> nat \<Rightarrow> (io_handle \<times> ThrottledConn) option" where
  "ThrottledConn_Read conn n =
     (if limitingReads conn = 0 then
        (let conn1 = conn\<lparr>unlimitedReadBytes := unlimitedReadBytes conn + (- of_nat n)\<rparr> in
         if sint (unlimitedReadBytes conn1) \<le> 0
         then Some (limitedReader conn1, conn1\<lparr>limitingReads := 1\<rparr>)
         else ThrottledConn_Read conn1 n)
      else Some (limitedReader conn, conn))"

partial_function (option) ThrottledConn_Write ::
  "ThrottledConn \<Rightarrow> nat \<Rightarrow> (io_handle \<times> ThrottledConn) option" where
  "ThrottledConn_Write conn n =
     (if limitingWrites conn = 0 then
        (let conn1 = conn\<lparr>unlimitedWriteBytes := unlimitedWriteBytes conn + (- of_nat n)\<rparr> in
         if sint (unlimitedWriteBytes conn1) \<le> 0
         then Some (limitedWriter conn1, conn1\<lparr>limitingWrites := 1\<rparr>)
         else ThrottledConn_Write conn1 n)
      else Some (limitedWriter conn, conn))"

declare ThrottledConn_Read.simps [code]
declare ThrottledConn_Write.simps [code]

text \<open>A sequence of calls on one connection, with the handle each call used.\<close>

datatype tc_op = OpRead nat | OpWrite nat

datatype tc_event = DidRead io_handle | DidWrite io_handle

fun tc_run :: "ThrottledConn \<Rightarrow> tc_op list \<Rightarrow> (tc_event list \<times> ThrottledConn) option" where
  "tc_run conn [] = Some ([], conn)"
| "tc_run conn (OpRead n # ops) =
     (case ThrottledConn_Read conn n of
        None \<Rightarrow> None
      | Some (h, conn1) \<Rightarrow>
          (case tc_run conn1 ops of
             None \<Rightarrow> None
           | Some (evs, conn2) \<Rightarrow> Some (DidRead h # evs, conn2)))"
| "tc_run conn (OpWrite n # ops) =
     (case ThrottledConn_Write conn n of
        None \<Rightarrow> None
      | Some (h, conn1) \<Rightarrow>
          (case tc_run conn1 ops of
             None \<Rightarrow> None
           | Some (evs, conn2) \<Rightarrow> Some (DidWrite h # evs, conn2)))"

section \<open>Conns (psiphon/net.go)\<close>

text \<open>
  The registry: the flag \<open>isClosed\<close> and a Go map from connection to \<open>bool\<close>. The
  map of a zero-valued \<open>Conns\<close> is nil (\<open>None\<close>): \<open>Add\<close> allocates it,
  \<open>delete\<close> and \<open>range\<close> treat it as empty. Handles stored here are non-nil
  connections. The calls of \<open>Close\<close> are counted per handle, since \<open>range\<close> visits the
  keys of a map in no fixed order, each key once.
\<close>

record Conns =
  isClosed :: bool
  conns_map :: "(conn \<rightharpoonup> bool) option"

definition registered :: "Conns \<Rightarrow> conn set" where
  "registered c = (case conns_map c of None \<Rightarrow> {} | Some m \<Rightarrow> dom m)"

definition Conns_Reset :: "Conns \<Rightarrow> Conns" where
  "Conns_Reset c = c\<lparr>isClosed := False, conns_map := Some Map.empty\<rparr>"

definition Conns_Add :: "Conns \<Rightarrow> conn \<Rightarrow> bool \<times> Conns" where
  "Conns_Add c h =
     (if isClosed c then (False, c)
      else (let m = (case conns_map c of None \<Rightarrow> Map.empty | Some m \<Rightarrow> m)
            in (True, c\<lparr>conns_map := Some (m(h \<mapsto> True))\<rparr>)))"

definition Conns_Remove :: "Conns \<Rightarrow> conn \<Rightarrow> Conns" where
  "Conns_Remove c h =
     (case conns_map c of
        None \<Rightarrow> c
      | Some m \<Rightarrow> c\<lparr>conns_map := Some (m(h := None))\<rparr>)"

definition Conns_CloseAll :: "Conns \<Rightarrow> (conn \<Rightarrow> nat) \<Rightarrow> Conns \<times> (conn \<Rightarrow> nat)" where
  "Conns_CloseAll c closes =
     (let c1 = c\<lparr>isClosed := True\<rparr>;
          closes1 = (\<lambda>h. if h \<in> registered c1 then Suc (closes h) else closes h)
      in (c1\<lparr>conns_map := Some Map.empty\<rparr>, closes1))"

text \<open>
  A sequence of registry operations. The trace records, for each operation, what it
  returned (\<open>Some b\<close> for \<open>Add\<close>) and the registry after it.
\<close>

datatype conns_op = Reset | Add conn | Remove conn | CloseAll

fun conns_step ::
  "conns_op \<Rightarrow> Conns \<times> (conn \<Rightarrow> nat) \<Rightarrow> bool option \<times> Conns \<times> (conn \<Rightarrow> nat)" where
  "conns_step Reset (c, w) = (None, Conns_Reset c, w)"
| "conns_step (Add h) (c, w) = (case Conns_Add c h of (b, c1) \<Rightarrow> (Some b, c1, w))"
| "conns_step (Remove h) (c, w) = (None, Conns_Remove c h, w)"
| "conns_step CloseAll (c, w) = (None, Conns_CloseAll c w)"

fun conns_run ::
  "Conns \<times> (conn \<Rightarrow> nat) \<Rightarrow> conns_op list \<Rightarrow> (bool option \<times> Conns) list \<times> (conn \<Rightarrow> nat)" where
  "conns_run (c, w) [] = ([], w)"
| "conns_run (c, w) (x # xs) =
     (case conns_step x (c, w) of
        (r, c1, w1) \<Rightarrow>
          (case conns_run (c1, w1) xs of (tr, w2) \<Rightarrow> ((r, c1) # tr, w2)))"

section \<open>ActivityMonitoredConn (psiphon/net.go)\<close>

text \<open>
  Instants and durations are integers of nanoseconds. What the wrapper acts on is the
  read deadline of the wrapped connection and the LRU set of its entry. The wrapped
  connection's own \<open>Read\<close> or \<open>Write\<close> result \<open>(n, err)\<close> is given, and so are the
  two readings of \<open>time.Now()\<close>, in program order.
\<close>

type_synonym go_error = "string option"

record ActivityMonitoredConn =
  inactivityTimeout :: int
  activeOnWrite :: bool
  startTime :: int
  lastActivityTime :: int
  lruEntry :: "LRUConnsEntry option"

record amc_world =
  readDeadline :: "int option"
  lru :: LRUConns

definition touch_lruEntry :: "ActivityMonitoredConn \<Rightarrow> amc_world \<Rightarrow> amc_world" where
  "touch_lruEntry conn w =
     (case lruEntry conn of None \<Rightarrow> w | Some e \<Rightarrow> w\<lparr>lru := Touch e (lru w)\<rparr>)"

definition SetReadDeadline_if_timeout ::
  "ActivityMonitoredConn \<Rightarrow> int \<Rightarrow> amc_world \<Rightarrow> amc_world" where
  "SetReadDeadline_if_timeout conn now w =
     (if inactivityTimeout conn > 0
      then w\<lparr>readDeadline := Some (now + inactivityTimeout conn)\<rparr> else w)"

definition ActivityMonitoredConn_Read ::
  "ActivityMonitoredConn \<Rightarrow> amc_world \<Rightarrow> nat \<times> go_error \<Rightarrow> int \<Rightarrow> int
     \<Rightarrow> (nat \<times> go_error) \<times> ActivityMonitoredConn \<times> amc_world" where
  "ActivityMonitoredConn_Read conn w res now1 now2 =
     (case snd res of
        Some e \<Rightarrow> (res, conn, w)
      | None \<Rightarrow>
          (res, conn\<lparr>lastActivityTime := now1\<rparr>,
           touch_lruEntry conn (SetReadDeadline_if_timeout conn now2 w)))"

definition ActivityMonitoredConn_Write ::
  "ActivityMonitoredConn \<Rightarrow> amc_world \<Rightarrow> nat \<times> go_error \<Rightarrow> int \<Rightarrow> int
     \<Rightarrow> (nat \<times> go_error) \<times> ActivityMonitoredConn \<times> amc_world" where
  "ActivityMonitoredConn_Write conn w res now1 now2 =
     (case snd res of
        Some e \<Rightarrow> (res, conn, w)
      | None \<Rightarrow>
          (if activeOnWrite conn
           then (res, conn\<lparr>lastActivityTime := now1\<rparr>,
                 touch_lruEntry conn (SetReadDeadline_if_timeout conn now2 w))
           else (res, conn, touch_lruEntry conn w)))"

section \<open>ResumeDownload (psiphon/net.go)\<close>

text \<open>
  The function talks to the file system and to an HTTP client. Their answers are the
  environment \<open>dl_env\<close>, one field per call in program order; what the function does to
  them is the list of effects of the outcome, with the request it sent. A byte slice is a
  string; \<open>partialETag\<close> starts as the nil slice (\<open>None\<close>), and a successful
  \<open>ioutil.ReadFile\<close> returns a non-nil slice, also for an empty file.
\<close>

datatype dl_error =
    OsError string
  | LoadPartialETagFailed string
  | UnexpectedStatusCode int
  | PartialETagMismatch

record http_response =
  StatusCode :: int
  ETag_header :: string

record http_request =
  req_method :: string
  req_url :: string
  req_header :: "(string \<times> string) list"

record dl_env =
  openFile_err :: go_error
  stat_result :: "string + nat"
  readFile_result :: "string + string"
  newRequest_err :: go_error
  do_result :: "string + http_response"
  copy_result :: "nat \<times> go_error"
  close_err :: go_error
  rename_err :: go_error

datatype dl_effect =
    OsRemove string
  | WriteFile string string
  | CopyBody string
  | FileClose string
  | OsRename string string
  | BodyClose

record dl_outcome =
  out_n :: nat
  out_etag :: string
  out_err :: "dl_error option"
  out_request :: "http_request option"
  out_effects :: "dl_effect list"

text \<open>\<open>fmt.Sprintf("%d", n)\<close> for a file size, and \<open>Header.Add\<close>.\<close>

fun Sprintf_d :: "nat \<Rightarrow> string" where
  "Sprintf_d n =
     (if n < 10 then [''0123456789'' ! n]
      else Sprintf_d (n div 10) @ [''0123456789'' ! (n mod 10)])"

declare Sprintf_d.simps [simp del]

definition Header_Add :: "(string \<times> string) list \<Rightarrow> string \<Rightarrow> string \<Rightarrow> (string \<times> string) list" where
  "Header_Add h k v = h @ [(k, v)]"

definition Header_values :: "(string \<times> string) list \<Rightarrow> string \<Rightarrow> string list" where
  "Header_values h k = map snd (filter (\<lambda>kv. fst kv = k) h)"

definition StatusPartialContent :: int where "StatusPartialContent = 206"
definition StatusNotModified :: int where "StatusNotModified = 304"
definition StatusPreconditionFailed :: int where "StatusPreconditionFailed = 412"
definition StatusRequestedRangeNotSatisfiable :: int where
  "StatusRequestedRangeNotSatisfiable = 416"

definition dl_return ::
  "nat \<Rightarrow> string \<Rightarrow> dl_error option \<Rightarrow> http_request option \<Rightarrow> dl_effect list \<Rightarrow> dl_outcome" where
  "dl_return n etag e req effs =
     \<lparr>out_n = n, out_etag = etag, out_err = e, out_request = req, out_effects = effs\<rparr>"

text \<open>The request of lines 592 to 622: the Range header, then If-Match or If-None-Match.\<close>

definition build_request :: "string \<Rightarrow> nat \<Rightarrow> string option \<Rightarrow> string \<Rightarrow> http_request" where
  "build_request requestUrl fileSize partialETag ifNoneMatchETag =
     (let h1 = Header_Add [] ''Range'' (''bytes='' @ Sprintf_d fileSize @ ''-'');
          h2 = (case partialETag of
                  Some t \<Rightarrow> Header_Add h1 ''If-Match'' t
                | None \<Rightarrow>
                    (if ifNoneMatchETag \<noteq> []
                     then Header_Add h1 ''If-None-Match'' ifNoneMatchETag else h1))
      in \<lparr>req_method = ''GET'', req_url = requestUrl, req_header = h2\<rparr>)"

text \<open>
  The part of the function after \<open>httpClient.Do\<close> returned a response (lines 630 to
  693). \<open>effs\<close> are the effects so far; the deferred \<open>file.Close()\<close> and
  \<open>response.Body.Close()\<close> end every path.
\<close>

definition handle_response ::
  "dl_env \<Rightarrow> string \<Rightarrow> http_request \<Rightarrow> http_response \<Rightarrow> dl_effect list \<Rightarrow> dl_outcome" where
  "handle_response env downloadFilename request response effs =
     (let partialFilename = downloadFilename @ ''.part'';
          partialETagFilename = downloadFilename @ ''.part.etag'';
          code = StatusCode response;
          responseETag = ETag_header response
      in
      if code \<noteq> StatusPartialContent \<and> code \<noteq> StatusRequestedRangeNotSatisfiable \<and>
         code \<noteq> StatusPreconditionFailed \<and> code \<noteq> StatusNotModified
      then dl_return 0 [] (Some (UnexpectedStatusCode code)) (Some request)
             (effs @ [BodyClose, FileClose partialFilename])
      else if code = StatusPreconditionFailed
      then dl_return 0 [] (Some PartialETagMismatch) (Some request)
             (effs @ [OsRemove partialFilename, OsRemove partialETagFilename,
                      BodyClose, FileClose partialFilename])
      else if code = StatusNotModified
      then dl_return 0 responseETag None (Some request)
             (effs @ [OsRemove partialFilename, OsRemove partialETagFilename,
                      BodyClose, FileClose partialFilename])
      else
        (let effs1 = effs @ [WriteFile partialETagFilename responseETag, CopyBody partialFilename];
             n = fst (copy_result env)
         in case snd (copy_result env) of
              Some e \<Rightarrow> dl_return n [] (Some (OsError e)) (Some request)
                          (effs1 @ [BodyClose, FileClose partialFilename])
            | None \<Rightarrow>
                (case close_err env of
                   Some e \<Rightarrow> dl_return n [] (Some (OsError e)) (Some request)
                               (effs1 @ [FileClose partialFilename, BodyClose,
                                         FileClose partialFilename])
                 | None \<Rightarrow>
                     (let effs2 = effs1 @ [FileClose partialFilename, OsRemove downloadFilename,
                                           OsRename partialFilename downloadFilename]
                      in case rename_err env of
                           Some e \<Rightarrow> dl_return n [] (Some (OsError e)) (Some request)
                                       (effs2 @ [BodyClose, FileClose partialFilename])
                         | None \<Rightarrow> dl_return n responseETag None (Some request)
                                     (effs2 @ [OsRemove partialETagFilename, BodyClose,
                                               FileClose partialFilename])))))"

definition ResumeDownload :: "dl_env \<Rightarrow> string \<Rightarrow> string \<Rightarrow> string \<Rightarrow> dl_outcome" where
  "ResumeDownload env requestUrl downloadFilename ifNoneMatchETag =
     (let partialFilename = downloadFilename @ ''.part'';
          partialETagFilename = downloadFilename @ ''.part.etag''
      in
      case openFile_err env of
        Some e \<Rightarrow> dl_return 0 [] (Some (OsError e)) None []
      | None \<Rightarrow>
     (case stat_result env of
        Inl e \<Rightarrow> dl_return 0 [] (Some (OsError e)) None [FileClose partialFilename]
      | Inr fileSize \<Rightarrow>
     (case (if fileSize > 0
            then (case readFile_result env of Inl e \<Rightarrow> Inl e | Inr b \<Rightarrow> Inr (Some b))
            else Inr None) of
        Inl e \<Rightarrow> dl_return 0 [] (Some (LoadPartialETagFailed e)) None
                   [OsRemove partialFilename, OsRemove partialETagFilename,
                    FileClose partialFilename]
      | Inr partialETag \<Rightarrow>
     (case newRequest_err env of
        Some e \<Rightarrow> dl_return 0 [] (Some (OsError e)) None [FileClose partialFilename]
      | None \<Rightarrow>
     (let request = build_request requestUrl fileSize partialETag ifNoneMatchETag in
      case do_result env of
        Inl e \<Rightarrow> dl_return 0 [] (Some (OsError e)) (Some request) [FileClose partialFilename]
      | Inr response \<Rightarrow> handle_response env downloadFilename request response [])))))"

section \<open>RunServices (psiphon/server/services.go)\<close>

text \<open>
  The supervisor and its goroutines as an interleaving of atomic steps, from line 61 on
  (the tunnel server has been constructed). A channel is its capacity and its buffer.
  A non-blocking send, \<open>select { case ch <- v: default: }\<close> and the send of
  \<open>signal.Notify\<close>, proceeds when a receiver is parked on the channel or the buffer has
  room, and takes the default branch otherwise.
\<close>

record 'a chan =
  chan_cap :: nat
  chan_buf :: "'a list"

definition make_chan :: "nat \<Rightarrow> 'a chan" where
  "make_chan n = \<lparr>chan_cap = n, chan_buf = []\<rparr>"

datatype 'a send_outcome = Delivered | Enqueued "'a chan" | TookDefault

definition nonblocking_send :: "'a chan \<Rightarrow> bool \<Rightarrow> 'a \<Rightarrow> 'a send_outcome" where
  "nonblocking_send ch receiver_parked v =
     (if receiver_parked then Delivered
      else if length (chan_buf ch) < chan_cap ch
      then Enqueued (ch\<lparr>chan_buf := chan_buf ch @ [v]\<rparr>)
      else TookDefault)"

datatype signal = Interrupt | SIGUSR1 | SIGUSR2

datatype supervisor_pc =
    SpawnLoadMonitor | SpawnWebServer | SpawnTunnelServer
  | EnterSelect | Parked | Reloading | LoggingLoad
  | CloseShutdown | WaitGroupWait | Returned

datatype load_monitor_pc = LM_NotSpawned | LM_Start | LM_Loop | LM_Exited

datatype worker_pc = W_NotSpawned | W_Running | W_Post go_error | W_Deferred | W_Exited

record services =
  RunLoadMonitor :: bool
  RunWebServer :: bool
  supervisor :: supervisor_pc
  waitGroup :: int
  shutdownBroadcast :: bool
  errors :: "go_error chan"
  run_err :: go_error
  systemStopSignal :: "signal chan"
  reloadSupportServicesSignal :: "signal chan"
  logServerLoadSignal :: "signal chan"
  loadMonitor :: load_monitor_pc
  webServer :: worker_pc
  tunnelServer :: worker_pc
  dropped :: "go_error list"

text \<open>
  Lines 61 to 63: \<open>make(chan error)\<close> has no capacity argument, so the channel is
  unbuffered. The signal channels of lines 113 to 122 have capacity 1.
\<close>

definition RunServices_init :: "bool \<Rightarrow> bool \<Rightarrow> services" where
  "RunServices_init runLoadMonitor runWebServer =
     \<lparr>RunLoadMonitor = runLoadMonitor, RunWebServer = runWebServer,
      supervisor = SpawnLoadMonitor, waitGroup = 0, shutdownBroadcast = False,
      errors = make_chan 0, run_err = None,
      systemStopSignal = make_chan 1, reloadSupportServicesSignal = make_chan 1,
      logServerLoadSignal = make_chan 1,
      loadMonitor = LM_NotSpawned, webServer = W_NotSpawned, tunnelServer = W_NotSpawned,
      dropped = []\<rparr>"

text \<open>
  A worker's \<open>select { case errors <- err: default: }\<close>. A delivered error is received
  by the supervisor's \<open>case err = <-errors\<close>, which leaves the loop.
\<close>

definition post_error :: "go_error \<Rightarrow> services \<Rightarrow> services" where
  "post_error e s =
     (case nonblocking_send (errors s) (supervisor s = Parked) e of
        Delivered \<Rightarrow> s\<lparr>run_err := e, supervisor := CloseShutdown\<rparr>
      | Enqueued ch \<Rightarrow> s\<lparr>errors := ch\<rparr>
      | TookDefault \<Rightarrow> s\<lparr>dropped := dropped s @ [e]\<rparr>)"

text \<open>The runtime hands a signal to its registered channel (after \<open>signal.Notify\<close>).\<close>

definition deliver :: "signal \<Rightarrow> services \<Rightarrow> services" where
  "deliver sig s =
     (if supervisor s = SpawnLoadMonitor \<or> supervisor s = SpawnWebServer \<or>
         supervisor s = SpawnTunnelServer then s
      else case sig of
        Interrupt \<Rightarrow>
          (case nonblocking_send (systemStopSignal s) (supervisor s = Parked) sig of
             Delivered \<Rightarrow> s\<lparr>supervisor := CloseShutdown\<rparr>
           | Enqueued ch \<Rightarrow> s\<lparr>systemStopSignal := ch\<rparr>
           | TookDefault \<Rightarrow> s)
      | SIGUSR1 \<Rightarrow>
          (case nonblocking_send (reloadSupportServicesSignal s) (supervisor s = Parked) sig of
             Delivered \<Rightarrow> s\<lparr>supervisor := Reloading\<rparr>
           | Enqueued ch \<Rightarrow> s\<lparr>reloadSupportServicesSignal := ch\<rparr>
           | TookDefault \<Rightarrow> s)
      | SIGUSR2 \<Rightarrow>
          (case nonblocking_send (logServerLoadSignal s) (supervisor s = Parked) sig of
             Delivered \<Rightarrow> s\<lparr>supervisor := LoggingLoad\<rparr>
           | Enqueued ch \<Rightarrow> s\<lparr>logServerLoadSignal := ch\<rparr>
           | TookDefault \<Rightarrow> s))"

text \<open>
  The \<open>select\<close> of the loop when it is entered: a case whose channel holds a value may be
  taken; the supervisor parks when no case is ready.
\<close>

datatype select_case = CaseReload | CaseLogLoad | CaseStop | CaseErrors

definition supervisor_select :: "select_case \<Rightarrow> services \<Rightarrow> services" where
  "supervisor_select c s =
     (if supervisor s \<noteq> EnterSelect then s
      else case c of
        CaseReload \<Rightarrow>
          (case chan_buf (reloadSupportServicesSignal s) of
             [] \<Rightarrow> s
           | _ # rest \<Rightarrow> s\<lparr>reloadSupportServicesSignal :=
                               (reloadSupportServicesSignal s)\<lparr>chan_buf := rest\<rparr>,
                             supervisor := Reloading\<rparr>)
      | CaseLogLoad \<Rightarrow>
          (case chan_buf (logServerLoadSignal s) of
             [] \<Rightarrow> s
           | _ # rest \<Rightarrow> s\<lparr>logServerLoadSignal := (logServerLoadSignal s)\<lparr>chan_buf := rest\<rparr>,
                             supervisor := LoggingLoad\<rparr>)
      | CaseStop \<Rightarrow>
          (case chan_buf (systemStopSignal s) of
             [] \<Rightarrow> s
           | _ # rest \<Rightarrow> s\<lparr>systemStopSignal := (systemStopSignal s)\<lparr>chan_buf := rest\<rparr>,
                             supervisor := CloseShutdown\<rparr>)
      | CaseErrors \<Rightarrow>
          (case chan_buf (errors s) of
             [] \<Rightarrow> s
           | e # rest \<Rightarrow> s\<lparr>errors := (errors s)\<lparr>chan_buf := rest\<rparr>,
                             run_err := e, supervisor := CloseShutdown\<rparr>))"

definition supervisor_step :: "services \<Rightarrow> services" where
  "supervisor_step s =
     (case supervisor s of
        SpawnLoadMonitor \<Rightarrow>
          (if RunLoadMonitor s
           then s\<lparr>waitGroup := waitGroup s + 1, loadMonitor := LM_Start,
                  supervisor := SpawnWebServer\<rparr>
           else s\<lparr>supervisor := SpawnWebServer\<rparr>)
      | SpawnWebServer \<Rightarrow>
          (if RunWebServer s
           then s\<lparr>waitGroup := waitGroup s + 1, webServer := W_Running,
                  supervisor := SpawnTunnelServer\<rparr>
           else s\<lparr>supervisor := SpawnTunnelServer\<rparr>)
      | SpawnTunnelServer \<Rightarrow>
          s\<lparr>waitGroup := waitGroup s + 1, tunnelServer := W_Running,
            run_err := None, supervisor := EnterSelect\<rparr>
      | EnterSelect \<Rightarrow>
          (if chan_buf (reloadSupportServicesSignal s) = [] \<and>
              chan_buf (logServerLoadSignal s) = [] \<and>
              chan_buf (systemStopSignal s) = [] \<and> chan_buf (errors s) = []
           then s\<lparr>supervisor := Parked\<rparr> else s)
      | Parked \<Rightarrow> s
      | Reloading \<Rightarrow> s\<lparr>supervisor := EnterSelect\<rparr>
      | LoggingLoad \<Rightarrow> s\<lparr>supervisor := EnterSelect\<rparr>
      | CloseShutdown \<Rightarrow> s\<lparr>shutdownBroadcast := True, supervisor := WaitGroupWait\<rparr>
      | WaitGroupWait \<Rightarrow> (if waitGroup s = 0 then s\<lparr>supervisor := Returned\<rparr> else s)
      | Returned \<Rightarrow> s)"

text \<open>
  The load monitor goroutine (lines 73 to 85): \<open>waitGroup.Done()\<close> is its first
  statement; then it loops until it receives from \<open>shutdownBroadcast\<close>.
\<close>

definition loadMonitor_step :: "services \<Rightarrow> services" where
  "loadMonitor_step s =
     (case loadMonitor s of
        LM_NotSpawned \<Rightarrow> s
      | LM_Start \<Rightarrow> s\<lparr>waitGroup := waitGroup s - 1, loadMonitor := LM_Loop\<rparr>
      | LM_Loop \<Rightarrow> (if shutdownBroadcast s then s\<lparr>loadMonitor := LM_Exited\<rparr> else s)
      | LM_Exited \<Rightarrow> s)"

text \<open>
  The web server and tunnel server goroutines (lines 90 to 97 and 103 to 110): the
  service runs until it returns an error value, the goroutine posts it, and the deferred
  \<open>waitGroup.Done()\<close> runs last.
\<close>

definition webServer_returns :: "go_error \<Rightarrow> services \<Rightarrow> services" where
  "webServer_returns e s = (if webServer s = W_Running then s\<lparr>webServer := W_Post e\<rparr> else s)"

definition webServer_step :: "services \<Rightarrow> services" where
  "webServer_step s =
     (case webServer s of
        W_Post e \<Rightarrow> (post_error e s)\<lparr>webServer := W_Deferred\<rparr>
      | W_Deferred \<Rightarrow> s\<lparr>waitGroup := waitGroup s - 1, webServer := W_Exited\<rparr>
      | _ \<Rightarrow> s)"

definition tunnelServer_returns :: "go_error \<Rightarrow> services \<Rightarrow> services" where
  "tunnelServer_returns e s =
     (if tunnelServer s = W_Running then s\<lparr>tunnelServer := W_Post e\<rparr> else s)"

definition tunnelServer_step :: "services \<Rightarrow> services" where
  "tunnelServer_step s =
     (case tunnelServer s of
        W_Post e \<Rightarrow> (post_error e s)\<lparr>tunnelServer := W_Deferred\<rparr>
      | W_Deferred \<Rightarrow> s\<lparr>waitGroup := waitGroup s - 1, tunnelServer := W_Exited\<rparr>
      | _ \<Rightarrow> s)"

datatype action =
    Supervisor
  | Select select_case
  | Deliver signal
  | LoadMonitor
  | WebServerReturns go_error
  | WebServer
  | TunnelServerReturns go_error
  | TunnelServer

fun step :: "action \<Rightarrow> services \<Rightarrow> services" where
  "step Supervisor s = supervisor_step s"
| "step (Select c) s = supervisor_select c s"
| "step (Deliver sig) s = deliver sig s"
| "step LoadMonitor s = loadMonitor_step s"
| "step (WebServerReturns e) s = webServer_returns e s"
| "step WebServer s = webServer_step s"
| "step (TunnelServerReturns e) s = tunnelServer_returns e s"
| "step TunnelServer s = tunnelServer_step s"

fun exec :: "action list \<Rightarrow> services \<Rightarrow> services" where
  "exec [] s = s"
| "exec (a # as) s = exec as (step a s)"

section \<open>Properties of LRUConns\<close>

lemma CloseOldest_panics_on_empty_list:
  "lru_list conns = [] \<Longrightarrow> CloseOldest conns = Inl NilPointerDereference"
  by (simp add: CloseOldest_def Back_def deref_Value_def)

lemma CloseOldest_closes_back:
  "lru_list conns = l @ [e] \<Longrightarrow>
     CloseOldest conns =
       Inr (conns\<lparr>lru_list := list_Remove (l @ [e]) e\<rparr>,
            (case Value e of None \<Rightarrow> [] | Some c \<Rightarrow> [c]))"
  by (cases l) (simp_all add: CloseOldest_def Back_def deref_Value_def)

text \<open>
  C3 (code defect). The claim: on an empty list \<open>CloseOldest\<close> is a no-op that returns
  normally. The code reads \<open>oldest.Value\<close> before it tests \<open>oldest != nil\<close>, so on
  the set made by \<open>NewLRUConns\<close> the call panics with a nil pointer dereference.
\<close>

theorem CloseOldest_empty_panics:
  "CloseOldest NewLRUConns = Inl NilPointerDereference"
  by (simp add: CloseOldest_def NewLRUConns_def Back_def deref_Value_def)

section \<open>Properties of the Conns registry\<close>

lemma closed_registry_stays_closed:
  "isClosed c \<Longrightarrow> registered c = {} \<Longrightarrow> Reset \<notin> set ops \<Longrightarrow>
     \<forall>(r, c') \<in> set (fst (conns_run (c, w) ops)).
        r \<noteq> Some True \<and> isClosed c' \<and> registered c' = {}"
proof (induction ops arbitrary: c w)
  case Nil
  then show ?case by simp
next
  case (Cons x xs)
  obtain r c1 w1 where st: "conns_step x (c, w) = (r, c1, w1)"
    by (cases "conns_step x (c, w)") auto
  have inv: "r \<noteq> Some True \<and> isClosed c1 \<and> registered c1 = {}"
    using st Cons.prems
    by (cases x) (auto simp: Conns_Add_def Conns_Remove_def Conns_CloseAll_def registered_def
        Let_def split: option.splits if_splits)
  have "\<forall>(r, c') \<in> set (fst (conns_run (c1, w1) xs)).
        r \<noteq> Some True \<and> isClosed c' \<and> registered c' = {}"
    using Cons.IH [of c1 w1] inv Cons.prems(3) by simp
  then show ?case
    using st inv by (auto split: prod.splits)
qed

lemma CloseAll_closes:
  "Conns_CloseAll c w = (c1, w1) \<Longrightarrow>
     isClosed c1 \<and> registered c1 = {} \<and>
     (\<forall>x. w1 x = (if x \<in> registered c then Suc (w x) else w x))"
  by (auto simp: Conns_CloseAll_def registered_def Let_def)

text \<open>
  C5. \<open>Add\<close> returns true exactly when the registry is not closed. \<open>CloseAll\<close> sets
  the closed flag, invokes close once on every handle registered at that moment, on no
  other handle, and leaves the mapping empty. After \<open>CloseAll\<close>, along every sequence
  of operations without \<open>Reset\<close>, every \<open>Add\<close> returns false and after each
  operation the registry is closed and empty.
\<close>

theorem Conns_closure:
  "fst (Conns_Add c h) = (\<not> isClosed c) \<and>
   (case Conns_CloseAll c w of
      (c1, w1) \<Rightarrow> isClosed c1 \<and> registered c1 = {} \<and>
                   (\<forall>x. w1 x = (if x \<in> registered c then Suc (w x) else w x))) \<and>
   (Reset \<notin> set ops \<longrightarrow>
      (\<forall>(r, c') \<in> set (fst (conns_run (Conns_CloseAll c w) ops)).
          r \<noteq> Some True \<and> isClosed c' \<and> registered c' = {}))"
proof -
  obtain c1 w1 where ca: "Conns_CloseAll c w = (c1, w1)"
    by (cases "Conns_CloseAll c w") auto
  note cl = CloseAll_closes [OF ca]
  have a: "fst (Conns_Add c h) = (\<not> isClosed c)"
    by (simp add: Conns_Add_def Let_def)
  have b: "Reset \<notin> set ops \<Longrightarrow>
      (\<forall>(r, c') \<in> set (fst (conns_run (c1, w1) ops)).
          r \<noteq> Some True \<and> isClosed c' \<and> registered c' = {})"
    using closed_registry_stays_closed [of c1 ops w1] cl by simp
  show ?thesis using a b cl ca by simp
qed

theorem Conns_closure_witness:
  "Reset \<notin> set [Add 7, Remove 3, CloseAll, Add 8] \<and>
   map fst (fst (conns_run
      (Conns_CloseAll (snd (Conns_Add \<lparr>isClosed = False, conns_map = None\<rparr> 1)) (\<lambda>_. 0))
      [Add 7, Remove 3, CloseAll, Add 8])) = [Some False, None, None, Some False] \<and>
   fst (Conns_Add \<lparr>isClosed = False, conns_map = None\<rparr> 1) \<and>
   snd (Conns_CloseAll (snd (Conns_Add \<lparr>isClosed = False, conns_map = None\<rparr> 1)) (\<lambda>_. 0)) 1 = 1"
  using Conns_closure [of "\<lparr>isClosed = False, conns_map = None\<rparr>" 1 "\<lambda>_. 0"
      "[Add 7, Remove 3, CloseAll, Add 8]"]
  by (simp add: Conns_Add_def Conns_CloseAll_def Conns_Remove_def registered_def Let_def)

section \<open>Properties of RunServices\<close>

text \<open>
  On the channel as \<open>RunServices\<close> allocates it, a post made while the supervisor is
  not parked in its \<open>select\<close> always takes the default branch.
\<close>

lemma post_error_dropped_unless_parked:
  "errors s = make_chan 0 \<Longrightarrow> supervisor s \<noteq> Parked \<Longrightarrow>
     post_error e s = s\<lparr>dropped := dropped s @ [e]\<rparr>"
  by (simp add: post_error_def nonblocking_send_def make_chan_def)

text \<open>
  C1 (code defect). The claim: the error inbox has capacity 1, so the first worker that
  fails posts its error whatever the supervisor is doing, and an error is dropped only
  when another worker has already reported. In the code the channel has capacity 0. In
  this run only the tunnel server is spawned; the supervisor parks in its \<open>select\<close>, is
  woken by SIGUSR1 and is reloading when the tunnel server fails. The post takes the
  default branch: the error is dropped although no worker has reported and the channel
  holds nothing. The tunnel server goroutine exits, and the supervisor parks again with
  no error received.
\<close>

theorem first_error_dropped_while_reloading:
  "(let s = exec [Supervisor, Supervisor, Supervisor, Supervisor, Deliver SIGUSR1,
                  TunnelServerReturns (Some ''listen failed''), TunnelServer, TunnelServer,
                  Supervisor, Supervisor]
                 (RunServices_init False False)
    in chan_cap (errors s) = 0 \<and> chan_buf (errors s) = [] \<and>
       dropped s = [Some ''listen failed''] \<and> run_err s = None \<and>
       webServer s = W_NotSpawned \<and> tunnelServer s = W_Exited \<and> supervisor s = Parked)"
  by (simp add: RunServices_init_def supervisor_step_def deliver_def tunnelServer_returns_def
      tunnelServer_step_def post_error_def nonblocking_send_def make_chan_def Let_def)

text \<open>
  C2 (code defect). The claim: every spawned worker decrements the wait group only when
  it exits, so all workers have returned when \<open>RunServices\<close> returns. The load monitor
  goroutine calls \<open>waitGroup.Done()\<close> as its first statement. In this run, with the load
  monitor configured, an interrupt arrives, the tunnel server returns and exits, the
  wait group reaches 0 and \<open>RunServices\<close> returns while the load monitor goroutine is
  still in its loop.
\<close>

theorem RunServices_returns_before_load_monitor:
  "(let s = exec [Supervisor, Supervisor, Supervisor, LoadMonitor, Supervisor,
                  Deliver Interrupt, Supervisor, TunnelServerReturns None, TunnelServer,
                  TunnelServer, Supervisor]
                 (RunServices_init True False)
    in supervisor s = Returned \<and> shutdownBroadcast s \<and> waitGroup s = 0 \<and>
       tunnelServer s = W_Exited \<and> loadMonitor s = LM_Loop)"
  by (simp add: RunServices_init_def supervisor_step_def deliver_def tunnelServer_returns_def
      tunnelServer_step_def post_error_def nonblocking_send_def make_chan_def
      loadMonitor_step_def Let_def)

section \<open>Properties of ThrottledConn\<close>

subsection \<open>Signed arithmetic of the unmetered counter\<close>



subsection \<open>Read and Write return on a non-empty buffer\<close>





text \<open>
  On an empty buffer the subtraction changes nothing: with the flag at 0 and a positive
  counter the call repeats itself for ever.
\<close>

lemma Read_empty_buffer_never_returns:
  assumes "limitingReads conn = 0" "0 < sint (unlimitedReadBytes conn)"
  shows "ThrottledConn_Read conn 0 = None"
proof (rule ccontr)
  assume "ThrottledConn_Read conn 0 \<noteq> None"
  then obtain y where y: "ThrottledConn_Read conn 0 = Some y" by auto
  have "\<not> (0 = (0::nat) \<and> limitingReads conn = 0 \<and> 0 < sint (unlimitedReadBytes conn))"
  proof (rule ThrottledConn_Read.raw_induct
      [where P = "\<lambda>conn n y. \<not> (n = 0 \<and> limitingReads conn = 0 \<and>
                                   0 < sint (unlimitedReadBytes conn))", OF _ y])
    fix f conn n y
    assume IH: "\<And>conn n y. f conn n = Some y \<Longrightarrow>
                  \<not> (n = 0 \<and> limitingReads conn = 0 \<and> 0 < sint (unlimitedReadBytes conn))"
      and body: "(if limitingReads conn = 0 then
          (let conn1 = conn\<lparr>unlimitedReadBytes := unlimitedReadBytes conn + (- of_nat n)\<rparr> in
           if sint (unlimitedReadBytes conn1) \<le> 0
           then Some (limitedReader conn1, conn1\<lparr>limitingReads := 1\<rparr>)
           else f conn1 n)
        else Some (limitedReader conn, conn)) = Some y"
    show "\<not> (n = 0 \<and> limitingReads conn = 0 \<and> 0 < sint (unlimitedReadBytes conn))"
    proof
      assume a: "n = 0 \<and> limitingReads conn = 0 \<and> 0 < sint (unlimitedReadBytes conn)"
      with body have "f conn 0 = Some y" by (simp add: Let_def)
      from IH [OF this] a show False by simp
    qed
  qed
  with assms show False by simp
qed



subsection \<open>What a call leaves unchanged\<close>

lemma Read_limiting:
  "limitingReads conn \<noteq> 0 \<Longrightarrow> ThrottledConn_Read conn n = Some (limitedReader conn, conn)"
  by (subst ThrottledConn_Read.simps) simp

lemma Write_limiting:
  "limitingWrites conn \<noteq> 0 \<Longrightarrow> ThrottledConn_Write conn n = Some (limitedWriter conn, conn)"
  by (subst ThrottledConn_Write.simps) simp

lemma Read_frame:
  assumes "ThrottledConn_Read conn n = Some y"
  shows "fst y = limitedReader conn \<and> limitedReader (snd y) = limitedReader conn \<and>
     limitingReads (snd y) \<noteq> 0 \<and> limitedWriter (snd y) = limitedWriter conn \<and>
     limitingWrites (snd y) = limitingWrites conn \<and>
     unlimitedWriteBytes (snd y) = unlimitedWriteBytes conn"
proof (rule ThrottledConn_Read.raw_induct
    [where P = "\<lambda>conn n y. fst y = limitedReader conn \<and>
       limitedReader (snd y) = limitedReader conn \<and>
       limitingReads (snd y) \<noteq> 0 \<and> limitedWriter (snd y) = limitedWriter conn \<and>
       limitingWrites (snd y) = limitingWrites conn \<and>
       unlimitedWriteBytes (snd y) = unlimitedWriteBytes conn", OF _ assms])
  fix f conn n y
  assume IH: "\<And>conn n y. f conn n = Some y \<Longrightarrow>
     fst y = limitedReader conn \<and> limitedReader (snd y) = limitedReader conn \<and>
     limitingReads (snd y) \<noteq> 0 \<and> limitedWriter (snd y) = limitedWriter conn \<and>
     limitingWrites (snd y) = limitingWrites conn \<and>
     unlimitedWriteBytes (snd y) = unlimitedWriteBytes conn"
    and body: "(if limitingReads conn = 0 then
        (let conn1 = conn\<lparr>unlimitedReadBytes := unlimitedReadBytes conn + (- of_nat n)\<rparr> in
         if sint (unlimitedReadBytes conn1) \<le> 0
         then Some (limitedReader conn1, conn1\<lparr>limitingReads := 1\<rparr>)
         else f conn1 n)
      else Some (limitedReader conn, conn)) = Some y"
  let ?conn1 = "conn\<lparr>unlimitedReadBytes := unlimitedReadBytes conn + (- of_nat n)\<rparr>"
  show "fst y = limitedReader conn \<and> limitedReader (snd y) = limitedReader conn \<and>
     limitingReads (snd y) \<noteq> 0 \<and> limitedWriter (snd y) = limitedWriter conn \<and>
     limitingWrites (snd y) = limitingWrites conn \<and>
     unlimitedWriteBytes (snd y) = unlimitedWriteBytes conn"
  proof (cases "limitingReads conn = 0")
    case False
    with body show ?thesis by auto
  next
    case True
    show ?thesis
    proof (cases "sint (unlimitedReadBytes ?conn1) \<le> 0")
      case le: True
      with True body show ?thesis by (auto simp: Let_def)
    next
      case gt: False
      with True body have "f ?conn1 n = Some y" by (simp add: Let_def)
      from IH [OF this] show ?thesis by simp
    qed
  qed
qed

lemma Write_frame:
  assumes "ThrottledConn_Write conn n = Some y"
  shows "fst y = limitedWriter conn \<and> limitedWriter (snd y) = limitedWriter conn \<and>
     limitingWrites (snd y) \<noteq> 0 \<and> limitedReader (snd y) = limitedReader conn \<and>
     limitingReads (snd y) = limitingReads conn \<and>
     unlimitedReadBytes (snd y) = unlimitedReadBytes conn"
proof (rule ThrottledConn_Write.raw_induct
    [where P = "\<lambda>conn n y. fst y = limitedWriter conn \<and>
       limitedWriter (snd y) = limitedWriter conn \<and>
       limitingWrites (snd y) \<noteq> 0 \<and> limitedReader (snd y) = limitedReader conn \<and>
       limitingReads (snd y) = limitingReads conn \<and>
       unlimitedReadBytes (snd y) = unlimitedReadBytes conn", OF _ assms])
  fix f conn n y
  assume IH: "\<And>conn n y. f conn n = Some y \<Longrightarrow>
     fst y = limitedWriter conn \<and> limitedWriter (snd y) = limitedWriter conn \<and>
     limitingWrites (snd y) \<noteq> 0 \<and> limitedReader (snd y) = limitedReader conn \<and>
     limitingReads (snd y) = limitingReads conn \<and>
     unlimitedReadBytes (snd y) = unlimitedReadBytes conn"
    and body: "(if limitingWrites conn = 0 then
        (let conn1 = conn\<lparr>unlimitedWriteBytes := unlimitedWriteBytes conn + (- of_nat n)\<rparr> in
         if sint (unlimitedWriteBytes conn1) \<le> 0
         then Some (limitedWriter conn1, conn1\<lparr>limitingWrites := 1\<rparr>)
         else f conn1 n)
      else Some (limitedWriter conn, conn)) = Some y"
  let ?conn1 = "conn\<lparr>unlimitedWriteBytes := unlimitedWriteBytes conn + (- of_nat n)\<rparr>"
  show "fst y = limitedWriter conn \<and> limitedWriter (snd y) = limitedWriter conn \<and>
     limitingWrites (snd y) \<noteq> 0 \<and> limitedReader (snd y) = limitedReader conn \<and>
     limitingReads (snd y) = limitingReads conn \<and>
     unlimitedReadBytes (snd y) = unlimitedReadBytes conn"
  proof (cases "limitingWrites conn = 0")
    case False
    with body show ?thesis by auto
  next
    case True
    show ?thesis
    proof (cases "sint (unlimitedWriteBytes ?conn1) \<le> 0")
      case le: True
      with True body show ?thesis by (auto simp: Let_def)
    next
      case gt: False
      with True body have "f ?conn1 n = Some y" by (simp add: Let_def)
      from IH [OF this] show ?thesis by simp
    qed
  qed
qed

lemma tc_run_handles:
  "tc_run conn ops = Some (evs, conn') \<Longrightarrow>
     limitedReader conn' = limitedReader conn \<and> limitedWriter conn' = limitedWriter conn"
proof (induction ops arbitrary: conn evs conn')
  case Nil
  then show ?case by simp
next
  case (Cons x xs)
  show ?case
  proof (cases x)
    case (OpRead n)
    with Cons.prems obtain h c1 evs1 where
      r: "ThrottledConn_Read conn n = Some (h, c1)" and t: "tc_run c1 xs = Some (evs1, conn')"
      by (auto split: option.splits prod.splits)
    from Read_frame [OF r] Cons.IH [OF t] show ?thesis by simp
  next
    case (OpWrite n)
    with Cons.prems obtain h c1 evs1 where
      r: "ThrottledConn_Write conn n = Some (h, c1)" and t: "tc_run c1 xs = Some (evs1, conn')"
      by (auto split: option.splits prod.splits)
    from Write_frame [OF r] Cons.IH [OF t] show ?thesis by simp
  qed
qed

lemma tc_run_limiting_reads:
  "limitingReads conn = 1 \<Longrightarrow> tc_run conn ops = Some (evs, conn') \<Longrightarrow>
     limitingReads conn' = 1 \<and> (\<forall>h. DidRead h \<in> set evs \<longrightarrow> h = limitedReader conn)"
proof (induction ops arbitrary: conn evs conn')
  case Nil
  then show ?case by simp
next
  case (Cons x xs)
  show ?case
  proof (cases x)
    case (OpRead n)
    have r: "ThrottledConn_Read conn n = Some (limitedReader conn, conn)"
      using Cons.prems(1) by (simp add: Read_limiting)
    with OpRead Cons.prems obtain evs1 where
      t: "tc_run conn xs = Some (evs1, conn')" and e: "evs = DidRead (limitedReader conn) # evs1"
      by (auto split: option.splits prod.splits)
    from Cons.IH [OF Cons.prems(1) t] e show ?thesis by auto
  next
    case (OpWrite n)
    with Cons.prems obtain h c1 evs1 where
      r: "ThrottledConn_Write conn n = Some (h, c1)" and t: "tc_run c1 xs = Some (evs1, conn')"
      and e: "evs = DidWrite h # evs1"
      by (auto split: option.splits prod.splits)
    from Write_frame [OF r] have f: "limitingReads c1 = 1" "limitedReader c1 = limitedReader conn"
      using Cons.prems(1) by simp_all
    from Cons.IH [OF f(1) t] f(2) e show ?thesis by auto
  qed
qed

lemma tc_run_limiting_writes:
  "limitingWrites conn = 1 \<Longrightarrow> tc_run conn ops = Some (evs, conn') \<Longrightarrow>
     limitingWrites conn' = 1 \<and> (\<forall>h. DidWrite h \<in> set evs \<longrightarrow> h = limitedWriter conn)"
proof (induction ops arbitrary: conn evs conn')
  case Nil
  then show ?case by simp
next
  case (Cons x xs)
  show ?case
  proof (cases x)
    case (OpWrite n)
    have r: "ThrottledConn_Write conn n = Some (limitedWriter conn, conn)"
      using Cons.prems(1) by (simp add: Write_limiting)
    with OpWrite Cons.prems obtain evs1 where
      t: "tc_run conn xs = Some (evs1, conn')" and e: "evs = DidWrite (limitedWriter conn) # evs1"
      by (auto split: option.splits prod.splits)
    from Cons.IH [OF Cons.prems(1) t] e show ?thesis by auto
  next
    case (OpRead n)
    with Cons.prems obtain h c1 evs1 where
      r: "ThrottledConn_Read conn n = Some (h, c1)" and t: "tc_run c1 xs = Some (evs1, conn')"
      and e: "evs = DidRead h # evs1"
      by (auto split: option.splits prod.splits)
    from Read_frame [OF r] have f: "limitingWrites c1 = 1" "limitedWriter c1 = limitedWriter conn"
      using Cons.prems(1) by simp_all
    from Cons.IH [OF f(1) t] f(2) e show ?thesis by auto
  qed
qed

text \<open>
  C6. Take a connection made by \<open>NewThrottledConn\<close>, any calls \<open>ops1\<close> that lead to a
  state \<open>conn\<close>, and any further calls \<open>ops2\<close>. For the read direction with a rate
  above 0: when the flag \<open>limitingReads\<close> is set in \<open>conn\<close>, it is still set after
  \<open>ops2\<close> and every \<open>Read\<close> of \<open>ops2\<close> went through the token-bucket limiter of
  that rate, none through the wrapped connection. The same holds for the write direction.
  \<open>Read\<close> and \<open>Write\<close> are the only methods that \<open>ThrottledConn\<close> defines; the
  others are those of the wrapped connection and cannot reach the flags.
\<close>

theorem limiting_flag_one_way:
  assumes "tc_run (NewThrottledConn unlimitedRead limitRead unlimitedWrite limitWrite) ops1
             = Some (evs1, conn)"
    and "tc_run conn ops2 = Some (evs2, conn')"
  shows "(0 < sint limitRead \<and> limitingReads conn = 1 \<longrightarrow>
            limitingReads conn' = 1 \<and>
            (\<forall>h. DidRead h \<in> set evs2 \<longrightarrow> h = RateLimited limitRead)) \<and>
         (0 < sint limitWrite \<and> limitingWrites conn = 1 \<longrightarrow>
            limitingWrites conn' = 1 \<and>
            (\<forall>h. DidWrite h \<in> set evs2 \<longrightarrow> h = RateLimited limitWrite))"
proof -
  from tc_run_handles [OF assms(1)]
  have h: "limitedReader conn = (if limitRead = 0 then BaseConn else RateLimited limitRead)"
          "limitedWriter conn = (if limitWrite = 0 then BaseConn else RateLimited limitWrite)"
    by (simp_all add: NewThrottledConn_def)
  have r: "limitingReads conn' = 1 \<and> (\<forall>h. DidRead h \<in> set evs2 \<longrightarrow> h = RateLimited limitRead)"
    if "0 < sint limitRead" "limitingReads conn = 1"
  proof -
    from that(1) have "limitRead \<noteq> 0" by auto
    with h(1) tc_run_limiting_reads [OF that(2) assms(2)] show ?thesis by simp
  qed
  have w: "limitingWrites conn' = 1 \<and> (\<forall>h. DidWrite h \<in> set evs2 \<longrightarrow> h = RateLimited limitWrite)"
    if "0 < sint limitWrite" "limitingWrites conn = 1"
  proof -
    from that(1) have "limitWrite \<noteq> 0" by auto
    with h(2) tc_run_limiting_writes [OF that(2) assms(2)] show ?thesis by simp
  qed
  from r w show ?thesis by blast
qed

theorem limiting_flag_one_way_witness:
  "tc_run (NewThrottledConn 1000 100 50 20) [OpRead 400, OpWrite 60] =
     Some ([DidRead (RateLimited 100), DidWrite (RateLimited 20)],
           \<lparr>unlimitedReadBytes = - 200, limitingReads = 1, limitedReader = RateLimited 100,
            unlimitedWriteBytes = - 10, limitingWrites = 1, limitedWriter = RateLimited 20\<rparr>) \<and>
   tc_run \<lparr>unlimitedReadBytes = - 200, limitingReads = 1, limitedReader = RateLimited 100,
           unlimitedWriteBytes = - 10, limitingWrites = 1, limitedWriter = RateLimited 20\<rparr>
          [OpRead 400, OpWrite 10, OpRead 1] =
     Some ([DidRead (RateLimited 100), DidWrite (RateLimited 20), DidRead (RateLimited 100)],
           \<lparr>unlimitedReadBytes = - 200, limitingReads = 1, limitedReader = RateLimited 100,
            unlimitedWriteBytes = - 10, limitingWrites = 1, limitedWriter = RateLimited 20\<rparr>) \<and>
   0 < sint (100 :: 64 word) \<and> 0 < sint (20 :: 64 word)"
proof -
  let ?c = "\<lparr>unlimitedReadBytes = - 200, limitingReads = 1, limitedReader = RateLimited 100,
            unlimitedWriteBytes = - 10, limitingWrites = 1, limitedWriter = RateLimited 20\<rparr>"
  have r1: "tc_run (NewThrottledConn 1000 100 50 20) [OpRead 400, OpWrite 60] =
     Some ([DidRead (RateLimited 100), DidWrite (RateLimited 20)], ?c)"
    by (simp add: ThrottledConn_Read.simps ThrottledConn_Write.simps NewThrottledConn_def)
  have r2: "tc_run ?c [OpRead 400, OpWrite 10, OpRead 1] =
     Some ([DidRead (RateLimited 100), DidWrite (RateLimited 20), DidRead (RateLimited 100)], ?c)"
    by (simp add: ThrottledConn_Read.simps ThrottledConn_Write.simps)
  from limiting_flag_one_way [OF r1 r2] r1 r2 show ?thesis by simp
qed




section \<open>Properties of ActivityMonitoredConn\<close>

text \<open>
  C9. A successful \<open>Write\<close> (the wrapped write returned no error) returns that result
  and touches the LRU entry when there is one, whatever \<open>activeOnWrite\<close> is. With
  \<open>activeOnWrite\<close> false it leaves \<open>lastActivityTime\<close> and the read deadline of the
  wrapped connection unchanged. With \<open>activeOnWrite\<close> true it stores the first clock
  reading in \<open>lastActivityTime\<close> and, when the inactivity timeout is above 0, sets the
  read deadline to the second clock reading plus the timeout.
\<close>

theorem ActivityMonitoredConn_Write_success:
  "(case ActivityMonitoredConn_Write conn w (n, None) firstNow secondNow of
      (res, conn', w') \<Rightarrow>
        res = (n, None) \<and>
        lru w' = (case lruEntry conn of None \<Rightarrow> lru w | Some e \<Rightarrow> Touch e (lru w)) \<and>
        lastActivityTime conn' = (if activeOnWrite conn then firstNow else lastActivityTime conn) \<and>
        readDeadline w' =
          (if activeOnWrite conn \<and> 0 < inactivityTimeout conn
           then Some (secondNow + inactivityTimeout conn) else readDeadline w) \<and>
        inactivityTimeout conn' = inactivityTimeout conn \<and>
        activeOnWrite conn' = activeOnWrite conn \<and>
        startTime conn' = startTime conn \<and> lruEntry conn' = lruEntry conn)"
  by (simp add: ActivityMonitoredConn_Write_def touch_lruEntry_def
      SetReadDeadline_if_timeout_def split: option.splits)

theorem ActivityMonitoredConn_Write_success_witness:
  "ActivityMonitoredConn_Write
     \<lparr>inactivityTimeout = 200, activeOnWrite = False, startTime = 5, lastActivityTime = 7,
      lruEntry = Some \<lparr>entry_lruConns = True,
                       entry_element = Some \<lparr>elem_id = 0, Value = Some 11\<rparr>\<rparr>\<rparr>
     \<lparr>readDeadline = Some 207,
      lru = \<lparr>lru_list = [\<lparr>elem_id = 1, Value = Some 12\<rparr>, \<lparr>elem_id = 0, Value = Some 11\<rparr>],
             lru_fresh = 2\<rparr>\<rparr>
     (3, None) 50 51 =
   ((3, None),
    \<lparr>inactivityTimeout = 200, activeOnWrite = False, startTime = 5, lastActivityTime = 7,
      lruEntry = Some \<lparr>entry_lruConns = True,
                       entry_element = Some \<lparr>elem_id = 0, Value = Some 11\<rparr>\<rparr>\<rparr>,
    \<lparr>readDeadline = Some 207,
      lru = \<lparr>lru_list = [\<lparr>elem_id = 0, Value = Some 11\<rparr>, \<lparr>elem_id = 1, Value = Some 12\<rparr>],
             lru_fresh = 2\<rparr>\<rparr>)"
  using ActivityMonitoredConn_Write_success
    [where conn = "\<lparr>inactivityTimeout = 200, activeOnWrite = False, startTime = 5, lastActivityTime = 7,
      lruEntry = Some \<lparr>entry_lruConns = True,
                       entry_element = Some \<lparr>elem_id = 0, Value = Some 11\<rparr>\<rparr>\<rparr>"
        and w = "\<lparr>readDeadline = Some 207,
      lru = \<lparr>lru_list = [\<lparr>elem_id = 1, Value = Some 12\<rparr>, \<lparr>elem_id = 0, Value = Some 11\<rparr>],
             lru_fresh = 2\<rparr>\<rparr>" and n = 3 and firstNow = 50 and secondNow = 51]
  by (simp add: ActivityMonitoredConn_Write_def touch_lruEntry_def Touch_def
      list_MoveToFront_def)

section \<open>Properties of ResumeDownload\<close>

lemma Sprintf_d_3M: "Sprintf_d 3145728 = ''3145728''"
  by (simp add: Sprintf_d.simps)

lemma handle_response_unexpected:
  assumes "StatusCode response \<noteq> 206" "StatusCode response \<noteq> 416"
    "StatusCode response \<noteq> 412" "StatusCode response \<noteq> 304"
  shows "handle_response env file req response effs =
           dl_return 0 [] (Some (UnexpectedStatusCode (StatusCode response))) (Some req)
             (effs @ [BodyClose, FileClose (file @ ''.part'')])"
  using assms
  by (simp add: handle_response_def Let_def StatusPartialContent_def StatusNotModified_def
      StatusPreconditionFailed_def StatusRequestedRangeNotSatisfiable_def)

text \<open>
  C7. When the HTTP client answers with a response whose status code is none of 206,
  416, 412 and 304, \<open>ResumeDownload\<close> returns byte count 0, an empty ETag and an
  error, and among its effects there is no copy of the body and no write of the ETag
  file; when the request was sent, the error is the unexpected status code.
\<close>

theorem ResumeDownload_unexpected_status:
  assumes "do_result env = Inr response"
    and "StatusCode response \<noteq> 206" "StatusCode response \<noteq> 416"
    and "StatusCode response \<noteq> 412" "StatusCode response \<noteq> 304"
  shows "out_n (ResumeDownload env url file hint) = 0 \<and>
         out_etag (ResumeDownload env url file hint) = [] \<and>
         out_err (ResumeDownload env url file hint) \<noteq> None \<and>
         (\<forall>f. CopyBody f \<notin> set (out_effects (ResumeDownload env url file hint))) \<and>
         (\<forall>f t. WriteFile f t \<notin> set (out_effects (ResumeDownload env url file hint))) \<and>
         (out_request (ResumeDownload env url file hint) \<noteq> None \<longrightarrow>
            out_err (ResumeDownload env url file hint) =
              Some (UnexpectedStatusCode (StatusCode response)))"
  using assms(1) handle_response_unexpected [OF assms(2-5)]
  by (auto simp: ResumeDownload_def dl_return_def Let_def
      split: option.splits sum.splits if_splits)

theorem ResumeDownload_unexpected_status_witness:
  "ResumeDownload
     \<lparr>openFile_err = None, stat_result = Inr 0, readFile_result = Inl ''no such file'',
      newRequest_err = None, do_result = Inr \<lparr>StatusCode = 200, ETag_header = ''v1''\<rparr>,
      copy_result = (10, None), close_err = None, rename_err = None\<rparr>
     ''https://example.org/f'' ''f'' [] =
   \<lparr>out_n = 0, out_etag = [], out_err = Some (UnexpectedStatusCode 200),
    out_request = Some \<lparr>req_method = ''GET'', req_url = ''https://example.org/f'',
                        req_header = [(''Range'', ''bytes=0-'')]\<rparr>,
    out_effects = [BodyClose, FileClose ''f.part'']\<rparr>"
proof -
  let ?env = "\<lparr>openFile_err = None, stat_result = Inr 0, readFile_result = Inl ''no such file'',
      newRequest_err = None, do_result = Inr \<lparr>StatusCode = 200, ETag_header = ''v1''\<rparr>,
      copy_result = (10, None), close_err = None, rename_err = None\<rparr>"
  have d: "do_result ?env = Inr \<lparr>StatusCode = 200, ETag_header = ''v1''\<rparr>" by simp
  have s: "StatusCode \<lparr>StatusCode = 200, ETag_header = ''v1''\<rparr> \<noteq> 206"
          "StatusCode \<lparr>StatusCode = 200, ETag_header = ''v1''\<rparr> \<noteq> 416"
          "StatusCode \<lparr>StatusCode = 200, ETag_header = ''v1''\<rparr> \<noteq> 412"
          "StatusCode \<lparr>StatusCode = 200, ETag_header = ''v1''\<rparr> \<noteq> 304"
    by simp_all
  from ResumeDownload_unexpected_status [OF d s, of "''https://example.org/f''" "''f''" "[]"]
  show ?thesis
    by (simp add: ResumeDownload_def handle_response_def build_request_def Header_Add_def
        dl_return_def Sprintf_d.simps Let_def StatusPartialContent_def StatusNotModified_def
        StatusPreconditionFailed_def StatusRequestedRangeNotSatisfiable_def)
qed

lemma request_sent_cases:
  assumes "out_request (ResumeDownload env url file hint) = Some req"
  shows "\<exists>S. stat_result env = Inr S \<and>
           ((S = 0 \<and> req = build_request url S None hint) \<or>
            (0 < S \<and> (\<exists>t. readFile_result env = Inr t \<and> req = build_request url S (Some t) hint)))"
  using assms
  by (auto simp: ResumeDownload_def handle_response_def dl_return_def Let_def
      split: option.splits sum.splits if_splits)

text \<open>
  C8. Every request that \<open>ResumeDownload\<close> sends carries exactly one Range header,
  \<open>bytes=S-\<close> with \<open>S\<close> the size of the partial file. It carries If-Match exactly
  when \<open>S > 0\<close>, and then once, with the content of the stored ETag file. It carries
  If-None-Match exactly when \<open>S = 0\<close> and the hint is not empty, and then once, with
  the hint. It never carries both.
\<close>

theorem ResumeDownload_request_headers:
  assumes "out_request (ResumeDownload env url file hint) = Some req"
  shows "(case stat_result env of
            Inl e \<Rightarrow> False
          | Inr S \<Rightarrow>
              Header_values (req_header req) ''Range'' = [''bytes='' @ Sprintf_d S @ ''-''] \<and>
              (Header_values (req_header req) ''If-Match'' \<noteq> []) = (0 < S) \<and>
              Header_values (req_header req) ''If-Match'' =
                (if 0 < S then (case readFile_result env of Inl e \<Rightarrow> [] | Inr t \<Rightarrow> [t]) else []) \<and>
              (Header_values (req_header req) ''If-None-Match'' \<noteq> []) = (S = 0 \<and> hint \<noteq> []) \<and>
              Header_values (req_header req) ''If-None-Match'' =
                (if S = 0 \<and> hint \<noteq> [] then [hint] else []) \<and>
              \<not> (Header_values (req_header req) ''If-Match'' \<noteq> [] \<and>
                 Header_values (req_header req) ''If-None-Match'' \<noteq> []))"
proof -
  from request_sent_cases [OF assms] obtain S where
    S: "stat_result env = Inr S" and
    c: "(S = 0 \<and> req = build_request url S None hint) \<or>
        (0 < S \<and> (\<exists>t. readFile_result env = Inr t \<and> req = build_request url S (Some t) hint))"
    by blast
  from c show ?thesis
  proof
    assume "S = 0 \<and> req = build_request url S None hint"
    then show ?thesis using S
      by (simp add: build_request_def Header_Add_def Header_values_def Let_def)
  next
    assume "0 < S \<and> (\<exists>t. readFile_result env = Inr t \<and> req = build_request url S (Some t) hint)"
    then obtain t where "0 < S" "readFile_result env = Inr t"
      "req = build_request url S (Some t) hint" by blast
    then show ?thesis using S
      by (simp add: build_request_def Header_Add_def Header_values_def Let_def)
  qed
qed

theorem ResumeDownload_request_headers_witness:
  "out_request (ResumeDownload
     \<lparr>openFile_err = None, stat_result = Inr 3145728, readFile_result = Inr ''abc'',
      newRequest_err = None, do_result = Inr \<lparr>StatusCode = 206, ETag_header = ''abc''\<rparr>,
      copy_result = (7340032, None), close_err = None, rename_err = None\<rparr>
     ''https://example.org/f'' ''f'' ''old'') =
     Some \<lparr>req_method = ''GET'', req_url = ''https://example.org/f'',
           req_header = [(''Range'', ''bytes=3145728-''), (''If-Match'', ''abc'')]\<rparr> \<and>
   Header_values [(''Range'', ''bytes=3145728-''), (''If-Match'', ''abc'')] ''If-Match'' = [''abc''] \<and>
   Header_values [(''Range'', ''bytes=3145728-''), (''If-Match'', ''abc'')] ''If-None-Match'' = []"
proof -
  let ?env = "\<lparr>openFile_err = None, stat_result = Inr 3145728, readFile_result = Inr ''abc'',
      newRequest_err = None, do_result = Inr \<lparr>StatusCode = 206, ETag_header = ''abc''\<rparr>,
      copy_result = (7340032, None), close_err = None, rename_err = None\<rparr>"
  let ?req = "\<lparr>req_method = ''GET'', req_url = ''https://example.org/f'',
           req_header = [(''Range'', ''bytes=3145728-''), (''If-Match'', ''abc'')]\<rparr>"
  have r: "out_request (ResumeDownload ?env ''https://example.org/f'' ''f'' ''old'') = Some ?req"
    by (simp add: ResumeDownload_def handle_response_def build_request_def Header_Add_def
        dl_return_def Sprintf_d_3M Let_def StatusPartialContent_def StatusNotModified_def
        StatusPreconditionFailed_def StatusRequestedRangeNotSatisfiable_def)
  from ResumeDownload_request_headers [OF r] r show ?thesis
    by (simp add: Sprintf_d_3M)
qed

end
